theory Spec2Isabelle
  imports Complex_Main
begin

section \<open>Data model of the mug designer\<close>

text \<open>
  The designer (class \<open>MugDesigner\<close> of \<open>designer.js\<close>) keeps a 2D canvas of placed
  objects, two history stacks of serialised scenes, four helper objects (safe-zone and
  bleed rectangles, two centre guides) and talks to the page's warning modal.

  JavaScript numbers are modelled as real numbers: coordinates, extents and scale factors
  are taken to be finite, and arithmetic to be exact.
\<close>

datatype js_error = TypeError

text \<open>The value of \<open>getBoundingRect(true)\<close>: an axis-aligned box.\<close>

record rect =
  rleft :: real
  rtop :: real
  rwidth :: real
  rheight :: real

text \<open>
  A canvas object. \<open>oid\<close> stands for the object's reference identity (the source compares
  objects with \<open>!==\<close> and \<open>indexOf\<close>). Every design object the source creates has
  \<open>originX = originY = "center"\<close>, so \<open>oleft\<close>/\<open>otop\<close> are the coordinates of its centre.
\<close>

record fobj =
  oid :: nat
  otype :: string
  oleft :: real
  otop :: real
  owidth :: real
  oheight :: real
  scaleX :: real
  scaleY :: real
  angle :: real
  visible :: bool
  excludeFromLayers :: bool

text \<open>
  The part of the document that \<open>showModal\<close> touches: the \<open>style.display\<close> of the element
  \<open>warningModal\<close>, the \<open>textContent\<close> of \<open>warningMessage\<close> (\<open>None\<close>: \<open>getElementById\<close>
  returns \<open>null\<close>), and the callbacks registered with \<open>setTimeout\<close>, each with its delay
  in milliseconds.
\<close>

datatype page_action = HideWarningModal

record page =
  warningModal :: "string option"
  warningMessage :: "string option"
  timeouts :: "(nat \<times> page_action) list"

record designer =
  canvas :: "fobj list"
  canvasWidth :: real
  canvasHeight :: real
  history :: "string list"
  redoHistory :: "string list"
  safeRect :: fobj
  bleedRect :: fobj
  vGuide :: fobj
  hGuide :: fobj
  page :: page

section \<open>Constraint engine\<close>

subsection \<open>showModal\<close>

text \<open>
  \<open>messageEl.textContent = message\<close> comes first and throws when the element is missing,
  then \<open>modal.style.display = "block"\<close>, then the timer that hides the modal after 3000 ms.
\<close>

definition showModal :: "string \<Rightarrow> page \<Rightarrow> js_error + page" where
  "showModal message pg =
     (case warningMessage pg of
        None \<Rightarrow> Inl TypeError
      | Some _ \<Rightarrow>
          (case warningModal pg of
             None \<Rightarrow> Inl TypeError
           | Some _ \<Rightarrow>
               Inr (pg\<lparr>warningMessage := Some message,
                        warningModal := Some ''block'',
                        timeouts := timeouts pg @ [(3000, HideWarningModal)]\<rparr>)))"

text \<open>The callback of that timer: \<open>modal.style.display = "none"\<close>.\<close>

fun run_page_action :: "page_action \<Rightarrow> page \<Rightarrow> page" where
  "run_page_action HideWarningModal pg =
     pg\<lparr>warningModal := map_option (\<lambda>_. ''none'') (warningModal pg)\<rparr>"

text \<open>The message of the bleed warning; its first three bytes are the warning sign.\<close>

definition bleedWarning :: string where
  "bleedWarning =
     [CHR 0xE2, CHR 0x9A, CHR 0xA0] @ '' Element is outside the safe printing area!''"

subsection \<open>checkBounds\<close>

text \<open>The condition of the first \<open>if\<close>: some edge of \<open>bounds\<close> lies outside \<open>bleed\<close>.\<close>

definition outsideBleed :: "rect \<Rightarrow> rect \<Rightarrow> bool" where
  "outsideBleed bounds bleed \<longleftrightarrow>
     rleft bounds < rleft bleed \<or>
     rleft bounds + rwidth bounds > rleft bleed + rwidth bleed \<or>
     rtop bounds < rtop bleed \<or>
     rtop bounds + rheight bounds > rtop bleed + rheight bleed"

text \<open>
  The body of \<open>if (obj.type === "i-text")\<close>: fit each scale factor, then clamp the position
  with the half extents that result from the fit.
\<close>

definition clampText :: "rect \<Rightarrow> fobj \<Rightarrow> fobj" where
  "clampText safe obj =
     (let objWidth = owidth obj * scaleX obj;
          objHeight = oheight obj * scaleY obj;
          maxWidth = rwidth safe;
          maxHeight = rheight safe;
          obj1 = (if objWidth > maxWidth then obj\<lparr>scaleX := maxWidth / owidth obj\<rparr> else obj);
          objWidth1 = (if objWidth > maxWidth then maxWidth else objWidth);
          obj2 = (if objHeight > maxHeight then obj1\<lparr>scaleY := maxHeight / oheight obj1\<rparr> else obj1);
          objHeight1 = (if objHeight > maxHeight then maxHeight else objHeight);
          objHalfW = objWidth1 / 2;
          objHalfH = objHeight1 / 2;
          minX = rleft safe + objHalfW;
          maxX = rleft safe + rwidth safe - objHalfW;
          minY = rtop safe + objHalfH;
          maxY = rtop safe + rheight safe - objHalfH;
          obj3 = (if oleft obj2 < minX then obj2\<lparr>oleft := minX\<rparr> else obj2);
          obj4 = (if oleft obj3 > maxX then obj3\<lparr>oleft := maxX\<rparr> else obj3);
          obj5 = (if otop obj4 < minY then obj4\<lparr>otop := minY\<rparr> else obj4);
          obj6 = (if otop obj5 > maxY then obj5\<lparr>otop := maxY\<rparr> else obj5)
      in obj6)"

text \<open>
  \<open>checkBounds(obj)\<close>. The library call \<open>getBoundingRect(true)\<close> is the parameter \<open>gbr\<close>.
  \<open>None\<close> is a missing object (\<open>if (!obj) return\<close>). The object is passed by reference in
  the source; the model returns the updated object next to the updated designer.
\<close>

definition checkBounds ::
  "(fobj \<Rightarrow> rect) \<Rightarrow> designer \<Rightarrow> fobj option \<Rightarrow> js_error + (fobj option \<times> designer)" where
  "checkBounds gbr d target =
     (case target of
        None \<Rightarrow> Inr (None, d)
      | Some obj \<Rightarrow>
          (let bounds = gbr obj;
               safe = gbr (safeRect d);
               bleed = gbr (bleedRect d);
               warned = (if outsideBleed bounds bleed
                         then showModal bleedWarning (page d) else Inr (page d))
           in case warned of
                Inl e \<Rightarrow> Inl e
              | Inr pg \<Rightarrow>
                  Inr (Some (if otype obj = ''i-text'' then clampText safe obj else obj),
                       d\<lparr>page := pg\<rparr>)))"

subsection \<open>snapToCenter\<close>

text \<open>
  \<open>snapToCenter(obj, snapPx = 10)\<close>. \<open>center\<close> is read once, before either test;
  \<open>setPositionByOrigin(p, "center", "center")\<close> puts the object's centre at \<open>p\<close>.
  \<open>None\<close> for \<open>snapPx\<close> is an omitted argument.
\<close>

definition snapToCenter :: "designer \<Rightarrow> fobj \<Rightarrow> real option \<Rightarrow> fobj \<times> designer" where
  "snapToCenter d obj snapArg =
     (let snapPx = (case snapArg of None \<Rightarrow> 10 | Some p \<Rightarrow> p);
          centerX = oleft obj;
          centerY = otop obj;
          nearX = \<bar>centerX - canvasWidth d / 2\<bar> < snapPx;
          obj1 = (if nearX then obj\<lparr>oleft := canvasWidth d / 2, otop := centerY\<rparr> else obj);
          d1 = d\<lparr>vGuide := (vGuide d)\<lparr>visible := nearX\<rparr>\<rparr>;
          nearY = \<bar>centerY - canvasHeight d / 2\<bar> < snapPx;
          obj2 = (if nearY then obj1\<lparr>oleft := centerX, otop := canvasHeight d / 2\<rparr> else obj1);
          d2 = d1\<lparr>hGuide := (hGuide d1)\<lparr>visible := nearY\<rparr>\<rparr>
      in (obj2, d2))"

section \<open>The canvas object list\<close>

text \<open>\<open>objects[i]\<close>: \<open>None\<close> is \<open>undefined\<close>, the value of a read outside the array.\<close>

definition nth_opt :: "'a list \<Rightarrow> nat \<Rightarrow> 'a option" where
  "nth_opt xs i = (if i < length xs then Some (xs ! i) else None)"

text \<open>\<open>indexOf\<close> by reference; \<open>None\<close> is \<open>undefined\<close>, which no element equals.\<close>

fun indexFrom :: "int \<Rightarrow> fobj list \<Rightarrow> fobj \<Rightarrow> int" where
  "indexFrom k [] x = -1"
| "indexFrom k (y # ys) x = (if oid y = oid x then k else indexFrom (k + 1) ys x)"

definition indexOf :: "fobj list \<Rightarrow> fobj option \<Rightarrow> int" where
  "indexOf xs target = (case target of None \<Rightarrow> -1 | Some x \<Rightarrow> indexFrom 0 xs x)"

text \<open>What \<open>canvas.remove(obj)\<close> does to the list: the first occurrence of the reference leaves it.\<close>

fun canvas_remove :: "fobj \<Rightarrow> fobj list \<Rightarrow> fobj list" where
  "canvas_remove x [] = []"
| "canvas_remove x (y # ys) = (if oid y = oid x then ys else y # canvas_remove x ys)"

text \<open>
  What \<open>canvas.insertAt(obj, index)\<close> does to the list: \<open>splice(index, 0, obj)\<close>, where a
  negative index counts from the end and the start is clipped to the list.
\<close>

definition insertAt :: "fobj \<Rightarrow> int \<Rightarrow> fobj list \<Rightarrow> fobj list" where
  "insertAt x index xs =
     (let n = int (length xs);
          start = (if index < 0 then max (n + index) 0 else min index n)
      in take (nat start) xs @ [x] @ drop (nat start) xs)"

section \<open>History manager\<close>

text \<open>
  The library's serialiser is a parameter: \<open>toJSON\<close> stands for
  \<open>JSON.stringify(this.canvas.toJSON())\<close>.
\<close>

definition saveHistory :: "(fobj list \<Rightarrow> string) \<Rightarrow> designer \<Rightarrow> designer" where
  "saveHistory toJSON d =
     (let currentState = toJSON (canvas d);
          pushed = history d @ [currentState]
      in d\<lparr>history := (if length pushed > 50 then tl pushed else pushed),
            redoHistory := []\<rparr>)"

subsection \<open>Canvas event handlers\<close>

text \<open>
  The handlers of \<open>object:added\<close>, \<open>object:removed\<close> and \<open>object:modified\<close>. The calls
  that only redraw, rebuild the layer panel, schedule the texture or count analytics do
  not touch the state modelled here. The target of \<open>object:modified\<close> is addressed by its
  position in the object list; a position outside the list is an undefined target, on
  which \<open>target.setCoords()\<close> throws.
\<close>

definition on_object_added :: "(fobj list \<Rightarrow> string) \<Rightarrow> designer \<Rightarrow> designer" where
  "on_object_added toJSON d = saveHistory toJSON d"

definition on_object_removed :: "(fobj list \<Rightarrow> string) \<Rightarrow> designer \<Rightarrow> designer" where
  "on_object_removed toJSON d = saveHistory toJSON d"


subsection \<open>Canvas calls that fire the events\<close>

text \<open>
  Once \<open>setupEventListeners\<close> has registered the handlers, the canvas runs them inside
  its own methods: \<open>canvas.remove(obj)\<close> takes the object out of the list and, when it was
  there, fires \<open>object:removed\<close>; \<open>canvas.insertAt(obj, index)\<close> puts it in and fires
  \<open>object:added\<close>.
\<close>

definition removeObject :: "(fobj list \<Rightarrow> string) \<Rightarrow> fobj \<Rightarrow> designer \<Rightarrow> designer" where
  "removeObject toJSON x d =
     (if indexOf (canvas d) (Some x) = -1 then d
      else on_object_removed toJSON (d\<lparr>canvas := canvas_remove x (canvas d)\<rparr>))"

definition insertObjectAt ::
  "(fobj list \<Rightarrow> string) \<Rightarrow> fobj \<Rightarrow> int \<Rightarrow> designer \<Rightarrow> designer" where
  "insertObjectAt toJSON x index d =
     on_object_added toJSON (d\<lparr>canvas := insertAt x index (canvas d)\<rparr>)"

text \<open>
  \<open>canvas.loadFromJSON(state, ...)\<close> clears the canvas, which removes the objects that are
  on it one after the other, and then inserts the objects it has built from \<open>state\<close>, each
  at its position; every one of these removals and insertions fires its event. The
  library's construction of the objects from the string is the parameter \<open>enliven\<close>, and
  the objects are taken to be built at once (no image has to be fetched).
\<close>

fun removeEach :: "(fobj list \<Rightarrow> string) \<Rightarrow> fobj list \<Rightarrow> designer \<Rightarrow> designer" where
  "removeEach toJSON [] d = d"
| "removeEach toJSON (x # xs) d = removeEach toJSON xs (removeObject toJSON x d)"

fun insertEach :: "(fobj list \<Rightarrow> string) \<Rightarrow> int \<Rightarrow> fobj list \<Rightarrow> designer \<Rightarrow> designer" where
  "insertEach toJSON index [] d = d"
| "insertEach toJSON index (x # xs) d =
     insertEach toJSON (index + 1) xs (insertObjectAt toJSON x index d)"

definition loadFromJSON ::
  "(fobj list \<Rightarrow> string) \<Rightarrow> (string \<Rightarrow> fobj list) \<Rightarrow> string \<Rightarrow> designer \<Rightarrow> designer" where
  "loadFromJSON toJSON enliven state d =
     insertEach toJSON 0 (enliven state) (removeEach toJSON (canvas d) d)"

subsection \<open>Undo and redo\<close>

text \<open>
  The click handler of \<open>undoBtn\<close>. \<open>if (lastState)\<close> tests a string: only the empty
  string is falsy.
\<close>

definition undo ::
  "(fobj list \<Rightarrow> string) \<Rightarrow> (string \<Rightarrow> fobj list) \<Rightarrow> designer \<Rightarrow> designer" where
  "undo toJSON enliven d =
     (if length (history d) > 1
      then (let d1 = d\<lparr>redoHistory := redoHistory d @ [last (history d)],
                        history := butlast (history d)\<rparr>;
                lastState = last (history d1)
            in if lastState \<noteq> [] then loadFromJSON toJSON enliven lastState d1 else d1)
      else d)"

definition redo ::
  "(fobj list \<Rightarrow> string) \<Rightarrow> (string \<Rightarrow> fobj list) \<Rightarrow> designer \<Rightarrow> designer" where
  "redo toJSON enliven d =
     (if length (redoHistory d) > 0
      then (let state = last (redoHistory d);
                d1 = d\<lparr>redoHistory := butlast (redoHistory d)\<rparr>;
                d2 = d1\<lparr>history := history d1 @ [toJSON (canvas d1)]\<rparr>
            in loadFromJSON toJSON enliven state d2)
      else d)"

text \<open>The constructor and \<open>resetDesign\<close> leave both stacks empty.\<close>

definition freshStacks :: "designer \<Rightarrow> bool" where
  "freshStacks d \<longleftrightarrow> history d = [] \<and> redoHistory d = []"

text \<open>
  A run of snapshots: the canvas takes each scene of the list in turn and \<open>saveHistory\<close>
  follows.
\<close>

fun snapshots :: "(fobj list \<Rightarrow> string) \<Rightarrow> fobj list list \<Rightarrow> designer \<Rightarrow> designer" where
  "snapshots toJSON [] d = d"
| "snapshots toJSON (s # ss) d = snapshots toJSON ss (saveHistory toJSON (d\<lparr>canvas := s\<rparr>))"

text \<open>
  The states the designer can be in: it starts with empty stacks; any step that is not a
  history operation leaves both stacks alone; the history operations are the three above.
\<close>

inductive reachable ::
  "(fobj list \<Rightarrow> string) \<Rightarrow> (string \<Rightarrow> fobj list) \<Rightarrow> designer \<Rightarrow> bool"
  for toJSON :: "fobj list \<Rightarrow> string" and enliven :: "string \<Rightarrow> fobj list" where
  start: "freshStacks d \<Longrightarrow> reachable toJSON enliven d"
| other: "reachable toJSON enliven d \<Longrightarrow> history d' = history d \<Longrightarrow>
          redoHistory d' = redoHistory d \<Longrightarrow> reachable toJSON enliven d'"
| save: "reachable toJSON enliven d \<Longrightarrow> reachable toJSON enliven (saveHistory toJSON d)"
| undone: "reachable toJSON enliven d \<Longrightarrow> reachable toJSON enliven (undo toJSON enliven d)"
| redone: "reachable toJSON enliven d \<Longrightarrow> reachable toJSON enliven (redo toJSON enliven d)"

section \<open>Layer model\<close>

text \<open>The filter shared by \<open>updateLayersPanel\<close> and \<open>reorderLayers\<close>.\<close>

definition designObjects :: "designer \<Rightarrow> fobj list" where
  "designObjects d =
     filter (\<lambda>obj. oid obj \<noteq> oid (safeRect d) \<and> oid obj \<noteq> oid (bleedRect d) \<and>
                   oid obj \<noteq> oid (vGuide d) \<and> oid obj \<noteq> oid (hGuide d) \<and>
                   \<not> excludeFromLayers obj)
            (canvas d)"

text \<open>
  \<open>updateLayersPanel\<close> builds one panel entry per element of
  \<open>designObjects.reverse()\<close>; the entry's \<open>index\<close> is its position in that reversed list,
  and it is this index that \<open>dragstart\<close> and \<open>drop\<close> hand to \<open>reorderLayers\<close>.
\<close>

definition layerEntries :: "designer \<Rightarrow> fobj list" where
  "layerEntries d = rev (designObjects d)"

text \<open>
  \<open>reorderLayers(fromIndex, toIndex)\<close>. An index outside \<open>objects\<close> gives \<open>undefined\<close>;
  removing it changes nothing and inserting it fails in the library.
\<close>

definition reorderLayers ::
  "(fobj list \<Rightarrow> string) \<Rightarrow> nat \<Rightarrow> nat \<Rightarrow> designer \<Rightarrow> js_error + designer" where
  "reorderLayers toJSON fromIndex toIndex d =
     (let objects = designObjects d
      in case nth_opt objects fromIndex of
           None \<Rightarrow> Inl TypeError
         | Some draggedObject \<Rightarrow>
             (let d1 = removeObject toJSON draggedObject d;
                  d2 =
                    (if toIndex = 0
                     then insertObjectAt toJSON draggedObject (int (length (canvas d1)) - 1) d1
                     else (let targetObject = nth_opt objects toIndex;
                               targetCanvasIndex = indexOf (canvas d1) targetObject
                           in insertObjectAt toJSON draggedObject targetCanvasIndex d1))
              in Inr (saveHistory toJSON d2)))"

text \<open>The \<open>drop\<close> handler of the panel entry with index \<open>targetIndex\<close>.\<close>

definition layer_drop ::
  "(fobj list \<Rightarrow> string) \<Rightarrow> nat \<Rightarrow> nat \<Rightarrow> designer \<Rightarrow> js_error + designer" where
  "layer_drop toJSON draggedIndex targetIndex d =
     (if draggedIndex \<noteq> targetIndex
      then reorderLayers toJSON draggedIndex targetIndex d
      else Inr d)"

section \<open>Texture synchronisation: the debounced update\<close>

text \<open>
  \<open>debounce(func, wait)\<close> returns a closure over the variable \<open>timeout\<close>. The host's timers
  are modelled with a clock in milliseconds: \<open>setTimeout\<close> queues a timer under a fresh
  id with its due time, \<open>clearTimeout\<close> drops the timer with the given id, and when the
  clock reaches a due time the callback runs. \<open>syncRuns\<close> records the time of each run of
  \<open>func\<close>, here \<open>updateMugTexture\<close>.
\<close>

record sync_state =
  clock :: nat
  nextTimer :: nat
  timers :: "(nat \<times> nat) list"
  timeout :: "nat option"
  syncRuns :: "nat list"

definition DEBOUNCE_TIME :: nat where
  "DEBOUNCE_TIME = 300"

definition clearTimeout :: "nat option \<Rightarrow> sync_state \<Rightarrow> sync_state" where
  "clearTimeout handle s =
     (case handle of
        None \<Rightarrow> s
      | Some i \<Rightarrow> s\<lparr>timers := filter (\<lambda>(j, due). j \<noteq> i) (timers s)\<rparr>)"

definition setTimeout :: "nat \<Rightarrow> sync_state \<Rightarrow> nat \<times> sync_state" where
  "setTimeout wait s =
     (nextTimer s,
      s\<lparr>timers := timers s @ [(nextTimer s, clock s + wait)], nextTimer := nextTimer s + 1\<rparr>)"

text \<open>One call of the closure that \<open>debounce(func, wait)\<close> returns.\<close>

definition debounced :: "nat \<Rightarrow> sync_state \<Rightarrow> sync_state" where
  "debounced wait s =
     (let s1 = clearTimeout (timeout s) s;
          (i, s2) = setTimeout wait s1
      in s2\<lparr>timeout := Some i\<rparr>)"

definition debouncedUpdate :: "sync_state \<Rightarrow> sync_state" where
  "debouncedUpdate s = debounced DEBOUNCE_TIME s"

text \<open>
  The clock reaches \<open>t\<close>: every queued timer that is due by then runs and leaves the queue.
  The clock never goes back.
\<close>

definition elapse :: "nat \<Rightarrow> sync_state \<Rightarrow> sync_state" where
  "elapse t s =
     (if t < clock s then s
      else s\<lparr>clock := t,
             syncRuns := syncRuns s @ map snd (filter (\<lambda>(j, due). due \<le> t) (timers s)),
             timers := filter (\<lambda>(j, due). \<not> due \<le> t) (timers s)\<rparr>)"

text \<open>Calls of \<open>debouncedUpdate\<close> at the given times, in order.\<close>

fun callsAt :: "nat list \<Rightarrow> sync_state \<Rightarrow> sync_state" where
  "callsAt [] s = s"
| "callsAt (t # ts) s = callsAt ts (debouncedUpdate (elapse t s))"

text \<open>Each call comes less than \<open>w\<close> milliseconds after the one before.\<close>

fun burst :: "nat \<Rightarrow> nat list \<Rightarrow> bool" where
  "burst w [] = True"
| "burst w [t] = True"
| "burst w (a # b # ts) = (a \<le> b \<and> b < a + w \<and> burst w (b # ts))"

definition idle :: sync_state where
  "idle = \<lparr>clock = 0, nextTimer = 0, timers = [], timeout = None, syncRuns = []\<rparr>"

section \<open>Worked instances\<close>

text \<open>
  Concrete values for the examples below: a text object, an image, the helper objects of
  \<open>setupFabric\<close> on the 614 x 230 canvas (in the order in which \<open>setupFabric\<close> leaves them,
  each located by its centre and with its stroke counted in its extent, so that \<open>boxOf\<close>
  gives the boxes that \<open>getBoundingRect\<close> returns for them: 494.4 x 222.4 at (60, 3) for
  the safe rectangle and 635 x 251 at (-10, -10) for the bleed rectangle), a page that has
  the warning modal, and a small serialiser and loader to stand for the library's.
\<close>

definition blankObject :: fobj where
  "blankObject = \<lparr>oid = 0, otype = ''image'', oleft = 307, otop = 115, owidth = 100,
     oheight = 50, scaleX = 1, scaleY = 1, angle = 0, visible = True,
     excludeFromLayers = False\<rparr>"

definition textObject :: "nat \<Rightarrow> fobj" where
  "textObject i = blankObject\<lparr>oid := i, otype := ''i-text''\<rparr>"

definition imageObject :: "nat \<Rightarrow> fobj" where
  "imageObject i = blankObject\<lparr>oid := i\<rparr>"

definition helperObject :: "nat \<Rightarrow> string \<Rightarrow> fobj" where
  "helperObject i t = blankObject\<lparr>oid := i, otype := t, excludeFromLayers := True\<rparr>"

definition boxOf :: "fobj \<Rightarrow> rect" where
  "boxOf obj = \<lparr>rleft = oleft obj - owidth obj * scaleX obj / 2,
                 rtop = otop obj - oheight obj * scaleY obj / 2,
                 rwidth = owidth obj * scaleX obj,
                 rheight = oheight obj * scaleY obj\<rparr>"

definition readyPage :: page where
  "readyPage = \<lparr>warningModal = Some ''none'', warningMessage = Some [], timeouts = []\<rparr>"

definition bleedBox :: fobj where
  "bleedBox = (helperObject 1 ''rect'')\<lparr>oleft := 307.5, otop := 115.5, owidth := 635, oheight := 251\<rparr>"

definition safeBox :: fobj where
  "safeBox = (helperObject 2 ''rect'')\<lparr>oleft := 307.2, otop := 114.2, owidth := 494.4, oheight := 222.4\<rparr>"

definition vLine :: fobj where
  "vLine = (helperObject 3 ''line'')\<lparr>visible := False\<rparr>"

definition hLine :: fobj where
  "hLine = (helperObject 4 ''line'')\<lparr>visible := False\<rparr>"

definition studio :: "fobj list \<Rightarrow> designer" where
  "studio design =
     \<lparr>canvas = [bleedBox, safeBox, vLine, hLine] @ design, canvasWidth = 614,
      canvasHeight = 230, history = [], redoHistory = [], safeRect = safeBox,
      bleedRect = bleedBox, vGuide = vLine, hGuide = hLine, page = readyPage\<rparr>"

definition tagJSON :: "fobj list \<Rightarrow> string" where
  "tagJSON objs = ''['' @ map (\<lambda>obj. if otype obj = ''i-text'' then CHR ''T'' else CHR ''I'') objs @ '']''"

definition tagLoad :: "string \<Rightarrow> fobj list" where
  "tagLoad s =
     map (\<lambda>(i, c). if c = CHR ''T'' then textObject i else imageObject i)
         (enumerate 100 (butlast (tl s)))"

definition wideText :: fobj where
  "wideText = (textObject 5)\<lparr>owidth := 600\<rparr>"

definition strayImage :: fobj where
  "strayImage = (imageObject 6)\<lparr>oleft := 700\<rparr>"

definition nearCentre :: fobj where
  "nearCentre = (imageObject 7)\<lparr>oleft := 310, otop := 50\<rparr>"

definition tenAway :: fobj where
  "tenAway = (imageObject 7)\<lparr>oleft := 317, otop := 50\<rparr>"

definition nearBoth :: fobj where
  "nearBoth = (imageObject 7)\<lparr>oleft := 312, otop := 120\<rparr>"

definition fullHistory :: designer where
  "fullHistory = (studio [])\<lparr>history := replicate 50 ''[]''\<rparr>"

definition bareStudio :: designer where
  "bareStudio = (studio [])\<lparr>canvas := []\<rparr>"

definition undoneOnce :: designer where
  "undoneOnce =
     undo tagJSON tagLoad
       (saveHistory tagJSON ((saveHistory tagJSON (studio []))\<lparr>canvas := canvas (studio [wideText])\<rparr>))"

definition overfull :: designer where
  "overfull = (studio [])\<lparr>history := replicate 50 ''[]'', redoHistory := [''[T]'']\<rparr>"

definition threeLayers :: designer where
  "threeLayers = studio [imageObject 5, imageObject 6, imageObject 7]"

text \<open>
  The state between two calls of a burst: the timer of the last call, made at time \<open>t\<close>,
  is the only one queued, the closure's variable holds its id, and nothing has run.
\<close>

definition armed :: "nat \<Rightarrow> sync_state \<Rightarrow> bool" where
  "armed t s \<longleftrightarrow>
     clock s = t \<and> syncRuns s = [] \<and>
     (case timeout s of
        None \<Rightarrow> False
      | Some i \<Rightarrow> timers s = [(i, t + DEBOUNCE_TIME)])"

section \<open>Properties of the constraint engine\<close>

subsection \<open>What clampText computes\<close>

lemma clampText_scaleX:
  "scaleX (clampText safe obj) =
     (if owidth obj * scaleX obj > rwidth safe then rwidth safe / owidth obj else scaleX obj)"
  by (simp add: clampText_def Let_def)

lemma clampText_scaleY:
  "scaleY (clampText safe obj) =
     (if oheight obj * scaleY obj > rheight safe then rheight safe / oheight obj else scaleY obj)"
  by (simp add: clampText_def Let_def)



lemma clampText_oleft:
  "oleft (clampText safe obj) =
     (let halfW = min (owidth obj * scaleX obj) (rwidth safe) / 2
      in min (rleft safe + rwidth safe - halfW) (max (rleft safe + halfW) (oleft obj)))"
  by (simp add: clampText_def Let_def min_def max_def)

lemma clampText_otop:
  "otop (clampText safe obj) =
     (let halfH = min (oheight obj * scaleY obj) (rheight safe) / 2
      in min (rtop safe + rheight safe - halfH) (max (rtop safe + halfH) (otop obj)))"
  by (simp add: clampText_def Let_def min_def max_def)

text \<open>A factor that had to be fitted only gets smaller, on a box of non-negative extent.\<close>

lemma scale_fit_le:
  fixes w s m :: real
  assumes "0 \<le> w" "m < w * s" "0 \<le> m"
  shows "m / w \<le> s"
proof -
  have "w \<noteq> 0" using assms by auto
  then have "0 < w" using assms by simp
  then show ?thesis using assms by (simp add: pos_divide_le_eq mult.commute)
qed


subsection \<open>What checkBounds returns\<close>

lemma checkBounds_Some:
  "checkBounds gbr d (Some obj) = Inr (r, d') \<Longrightarrow>
     r = Some (if otype obj = ''i-text'' then clampText (gbr (safeRect d)) obj else obj)"
  by (auto simp: checkBounds_def Let_def split: sum.splits if_splits)

lemma showModal_ready_eq:
  "warningMessage pg \<noteq> None \<Longrightarrow> warningModal pg \<noteq> None \<Longrightarrow>
     showModal m pg = Inr (pg\<lparr>warningMessage := Some m, warningModal := Some ''block'',
                              timeouts := timeouts pg @ [(3000, HideWarningModal)]\<rparr>)"
  by (auto simp: showModal_def split: option.splits)

lemma checkBounds_returns:
  assumes "warningMessage (page d) \<noteq> None" "warningModal (page d) \<noteq> None"
  shows "\<exists>obj' d'. checkBounds gbr d (Some obj) = Inr (Some obj', d')"
proof (cases "outsideBleed (gbr obj) (gbr (bleedRect d))")
  case True
  with showModal_ready_eq[OF assms, of bleedWarning] show ?thesis
    by (simp add: checkBounds_def Let_def)
next
  case False
  then show ?thesis by (simp add: checkBounds_def Let_def)
qed

subsection \<open>The worked instances\<close>

lemma studio_safe:
  "boxOf (safeRect (studio design)) = \<lparr>rleft = 60, rtop = 3, rwidth = 494.4, rheight = 222.4\<rparr>"
  by (simp add: studio_def boxOf_def safeBox_def helperObject_def blankObject_def)

lemma studio_bleed:
  "boxOf (bleedRect (studio design)) = \<lparr>rleft = -10, rtop = -10, rwidth = 635, rheight = 251\<rparr>"
  by (simp add: studio_def boxOf_def bleedBox_def helperObject_def blankObject_def)

lemma studio_page: "page (studio design) = readyPage"
  by (simp add: studio_def)

lemma wideText_fields:
  "otype wideText = ''i-text''" "owidth wideText = 600" "oheight wideText = 50"
  "scaleX wideText = 1" "scaleY wideText = 1" "oleft wideText = 307" "otop wideText = 115"
  by (simp_all add: wideText_def textObject_def blankObject_def)

lemma strayImage_fields:
  "otype strayImage = ''image''" "owidth strayImage = 100" "oheight strayImage = 50"
  "scaleX strayImage = 1" "scaleY strayImage = 1" "oleft strayImage = 700" "otop strayImage = 115"
  by (simp_all add: strayImage_def imageObject_def blankObject_def)



lemma strayImage_outside_bleed:
  "outsideBleed (boxOf strayImage) (boxOf (bleedRect (studio design)))"
  by (simp only: studio_bleed) (simp add: outsideBleed_def boxOf_def strayImage_fields)


subsection \<open>Text stays in the safe zone\<close>

text \<open>
  Claim C1. For a text object (type \<open>i-text\<close>), \<open>checkBounds\<close> returns, and afterwards the
  centre of the object lies within the safe-zone rectangle, edges included, and neither
  scale factor has grown. The object is a well-formed canvas object (extents and scale
  factors are not negative), the safe zone is a rectangle (its extents are not negative),
  and the page has the two elements of the warning modal.
\<close>

theorem checkBounds_text_center_in_safe_zone:
  assumes "otype obj = ''i-text''"
    and "0 \<le> rwidth (gbr (safeRect d))" and "0 \<le> rheight (gbr (safeRect d))"
    and "0 \<le> owidth obj" and "0 \<le> oheight obj"
    and "0 \<le> scaleX obj" and "0 \<le> scaleY obj"
    and "warningMessage (page d) \<noteq> None" and "warningModal (page d) \<noteq> None"
  shows "\<exists>obj' d'. checkBounds gbr d (Some obj) = Inr (Some obj', d') \<and>
           rleft (gbr (safeRect d)) \<le> oleft obj' \<and>
           oleft obj' \<le> rleft (gbr (safeRect d)) + rwidth (gbr (safeRect d)) \<and>
           rtop (gbr (safeRect d)) \<le> otop obj' \<and>
           otop obj' \<le> rtop (gbr (safeRect d)) + rheight (gbr (safeRect d)) \<and>
           scaleX obj' \<le> scaleX obj \<and> scaleY obj' \<le> scaleY obj"
proof -
  let ?safe = "gbr (safeRect d)"
  let ?c = "clampText ?safe obj"
  from checkBounds_returns[OF assms(8,9)] obtain r d'
    where ret: "checkBounds gbr d (Some obj) = Inr (Some r, d')" by blast
  from checkBounds_Some[OF ret] assms(1) have r: "r = ?c" by simp
  have w0: "0 \<le> owidth obj * scaleX obj" and h0: "0 \<le> oheight obj * scaleY obj"
    using assms by simp_all
  have x: "rleft ?safe \<le> oleft ?c \<and> oleft ?c \<le> rleft ?safe + rwidth ?safe"
    using w0 assms(2) by (simp add: clampText_oleft Let_def min_def max_def)
  have y: "rtop ?safe \<le> otop ?c \<and> otop ?c \<le> rtop ?safe + rheight ?safe"
    using h0 assms(3) by (simp add: clampText_otop Let_def min_def max_def)
  have sx: "scaleX ?c \<le> scaleX obj"
    using scale_fit_le[of "owidth obj" "rwidth ?safe" "scaleX obj"] assms(2,4)
    by (simp add: clampText_scaleX)
  have sy: "scaleY ?c \<le> scaleY obj"
    using scale_fit_le[of "oheight obj" "rheight ?safe" "scaleY obj"] assms(3,5)
    by (simp add: clampText_scaleY)
  from ret r x y sx sy show ?thesis by blast
qed

theorem checkBounds_text_center_in_safe_zone_witness:
  "\<exists>obj' d'. checkBounds boxOf (studio [wideText]) (Some wideText) = Inr (Some obj', d') \<and>
     60 \<le> oleft obj' \<and> oleft obj' \<le> 554.4 \<and> 3 \<le> otop obj' \<and> otop obj' \<le> 225.4 \<and>
     scaleX obj' \<le> 1 \<and> scaleY obj' \<le> 1"
proof -
  have "\<exists>obj' d'. checkBounds boxOf (studio [wideText]) (Some wideText) = Inr (Some obj', d') \<and>
           rleft (boxOf (safeRect (studio [wideText]))) \<le> oleft obj' \<and>
           oleft obj' \<le> rleft (boxOf (safeRect (studio [wideText])))
                          + rwidth (boxOf (safeRect (studio [wideText]))) \<and>
           rtop (boxOf (safeRect (studio [wideText]))) \<le> otop obj' \<and>
           otop obj' \<le> rtop (boxOf (safeRect (studio [wideText])))
                         + rheight (boxOf (safeRect (studio [wideText]))) \<and>
           scaleX obj' \<le> scaleX wideText \<and> scaleY obj' \<le> scaleY wideText"
    by (rule checkBounds_text_center_in_safe_zone)
       (simp_all add: studio_safe studio_page readyPage_def wideText_fields)
  then show ?thesis by (simp add: studio_safe wideText_fields)
qed

subsection \<open>Fit first, clamp second\<close>




subsection \<open>Other objects are only warned about\<close>

text \<open>
  Claim C8. For an object that is not text, on a page that has the two elements of the
  warning modal, \<open>checkBounds\<close> returns without an error and hands the object back
  unchanged (position, scale and rotation included), and of the designer only the page
  may differ. When an edge of the bounding box is outside the bleed rectangle, the
  warning is shown and a timer is registered that hides it after 3000 ms; otherwise the
  page is as before.
\<close>

theorem checkBounds_non_text_warns_only:
  assumes "otype obj \<noteq> ''i-text''"
    and "warningMessage (page d) \<noteq> None" and "warningModal (page d) \<noteq> None"
  shows "\<exists>d'. checkBounds gbr d (Some obj) = Inr (Some obj, d') \<and>
           d' = d\<lparr>page := page d'\<rparr> \<and>
           (outsideBleed (gbr obj) (gbr (bleedRect d)) \<longrightarrow>
              warningMessage (page d') = Some bleedWarning \<and>
              warningModal (page d') = Some ''block'' \<and>
              timeouts (page d') = timeouts (page d) @ [(3000, HideWarningModal)] \<and>
              warningModal (run_page_action HideWarningModal (page d')) = Some ''none'') \<and>
           (\<not> outsideBleed (gbr obj) (gbr (bleedRect d)) \<longrightarrow> page d' = page d)"
proof (cases "outsideBleed (gbr obj) (gbr (bleedRect d))")
  case True
  let ?pg = "(page d)\<lparr>warningMessage := Some bleedWarning, warningModal := Some ''block'',
                         timeouts := timeouts (page d) @ [(3000, HideWarningModal)]\<rparr>"
  have "checkBounds gbr d (Some obj) = Inr (Some obj, d\<lparr>page := ?pg\<rparr>)"
    using True assms(1) showModal_ready_eq[OF assms(2,3), of bleedWarning]
    by (simp add: checkBounds_def Let_def)
  with True show ?thesis by simp
next
  case False
  then have "checkBounds gbr d (Some obj) = Inr (Some obj, d)"
    using assms(1) by (simp add: checkBounds_def Let_def)
  with False show ?thesis by simp
qed

theorem checkBounds_non_text_warns_only_witness:
  "\<exists>d'. checkBounds boxOf (studio [strayImage]) (Some strayImage) = Inr (Some strayImage, d') \<and>
     warningMessage (page d') = Some bleedWarning \<and>
     warningModal (page d') = Some ''block'' \<and>
     timeouts (page d') = [(3000, HideWarningModal)] \<and>
     warningModal (run_page_action HideWarningModal (page d')) = Some ''none''"
  using checkBounds_non_text_warns_only [of strayImage "studio [strayImage]" boxOf]
    strayImage_outside_bleed
  by (simp add: studio_page readyPage_def strayImage_fields) blast

section \<open>Properties of snapToCenter\<close>

lemma studio_size: "canvasWidth (studio design) = 614" "canvasHeight (studio design) = 230"
  by (simp_all add: studio_def)

lemma snapToCenter_oleft:
  "oleft (fst (snapToCenter d obj None)) =
     (if \<bar>otop obj - canvasHeight d / 2\<bar> < 10 then oleft obj
      else if \<bar>oleft obj - canvasWidth d / 2\<bar> < 10 then canvasWidth d / 2
      else oleft obj)"
  by (simp add: snapToCenter_def Let_def)

lemma snapToCenter_otop:
  "otop (fst (snapToCenter d obj None)) =
     (if \<bar>otop obj - canvasHeight d / 2\<bar> < 10 then canvasHeight d / 2 else otop obj)"
  by (simp add: snapToCenter_def Let_def)

lemma snapToCenter_guides:
  "visible (vGuide (snd (snapToCenter d obj None))) \<longleftrightarrow> \<bar>oleft obj - canvasWidth d / 2\<bar> < 10"
  "visible (hGuide (snd (snapToCenter d obj None))) \<longleftrightarrow> \<bar>otop obj - canvasHeight d / 2\<bar> < 10"
  by (simp_all add: snapToCenter_def Let_def)

lemma nearCentre_fields: "oleft nearCentre = 310" "otop nearCentre = 50"
  by (simp_all add: nearCentre_def imageObject_def blankObject_def)

lemma tenAway_fields: "oleft tenAway = 317" "otop tenAway = 50"
  by (simp_all add: tenAway_def imageObject_def blankObject_def)

lemma nearBoth_fields: "oleft nearBoth = 312" "otop nearBoth = 120"
  by (simp_all add: nearBoth_def imageObject_def blankObject_def)

text \<open>
  Claim C3, as amended. With the default threshold, each guide is visible afterwards
  exactly when the centre was strictly less than 10 pixels from that guide's centreline
  (at 10 pixels or more it is hidden). The Y coordinate of the centre becomes exactly
  \<open>H/2\<close> when it was strictly less than 10 pixels from it, and is unchanged otherwise.
  The X coordinate is unchanged when it was 10 pixels or more from \<open>W/2\<close>, and becomes
  exactly \<open>W/2\<close> when it was strictly less than 10 pixels from it and the Y axis does
  not snap.
\<close>

theorem snapToCenter_per_axis:
  "(visible (vGuide (snd (snapToCenter d obj None))) \<longleftrightarrow> \<bar>oleft obj - canvasWidth d / 2\<bar> < 10) \<and>
   (visible (hGuide (snd (snapToCenter d obj None))) \<longleftrightarrow> \<bar>otop obj - canvasHeight d / 2\<bar> < 10) \<and>
   (\<bar>otop obj - canvasHeight d / 2\<bar> < 10 \<longrightarrow>
      otop (fst (snapToCenter d obj None)) = canvasHeight d / 2) \<and>
   (\<not> \<bar>otop obj - canvasHeight d / 2\<bar> < 10 \<longrightarrow>
      otop (fst (snapToCenter d obj None)) = otop obj) \<and>
   (\<bar>oleft obj - canvasWidth d / 2\<bar> < 10 \<and> \<not> \<bar>otop obj - canvasHeight d / 2\<bar> < 10 \<longrightarrow>
      oleft (fst (snapToCenter d obj None)) = canvasWidth d / 2) \<and>
   (\<not> \<bar>oleft obj - canvasWidth d / 2\<bar> < 10 \<longrightarrow>
      oleft (fst (snapToCenter d obj None)) = oleft obj)"
  by (simp add: snapToCenter_oleft snapToCenter_otop snapToCenter_guides)

theorem snapToCenter_per_axis_witness:
  "\<bar>oleft nearCentre - canvasWidth (studio [nearCentre]) / 2\<bar> < 10 \<and>
   \<not> \<bar>otop nearCentre - canvasHeight (studio [nearCentre]) / 2\<bar> < 10 \<and>
   oleft (fst (snapToCenter (studio [nearCentre]) nearCentre None)) = 307 \<and>
   otop (fst (snapToCenter (studio [nearCentre]) nearCentre None)) = 50 \<and>
   visible (vGuide (snd (snapToCenter (studio [nearCentre]) nearCentre None))) \<and>
   \<not> visible (hGuide (snd (snapToCenter (studio [nearCentre]) nearCentre None)))"
  using snapToCenter_per_axis [of "studio [nearCentre]" nearCentre]
  by (simp add: studio_size nearCentre_fields)

text \<open>
  The claim as written fails at two inputs on the 614 x 230 canvas. An object whose
  centre is exactly 10 pixels from \<open>W/2 = 307\<close> is within 10 pixels of it, yet stays at
  317 with the guide hidden: the test is a strict \<open><\<close>. And an object 5 pixels from both
  centrelines, at (312, 120), ends at (312, 115) with the vertical guide visible: the
  second \<open>setPositionByOrigin\<close> is given the X coordinate read before the first snap and
  so puts the centre back where it was on that axis.
\<close>

theorem snapToCenter_misses_claimed_snaps:
  "\<bar>oleft tenAway - canvasWidth (studio [tenAway]) / 2\<bar> = 10 \<and>
   oleft (fst (snapToCenter (studio [tenAway]) tenAway None)) = 317 \<and>
   \<not> visible (vGuide (snd (snapToCenter (studio [tenAway]) tenAway None))) \<and>
   \<bar>oleft nearBoth - canvasWidth (studio [nearBoth]) / 2\<bar> = 5 \<and>
   \<bar>otop nearBoth - canvasHeight (studio [nearBoth]) / 2\<bar> = 5 \<and>
   oleft (fst (snapToCenter (studio [nearBoth]) nearBoth None)) = 312 \<and>
   otop (fst (snapToCenter (studio [nearBoth]) nearBoth None)) = 115 \<and>
   visible (vGuide (snd (snapToCenter (studio [nearBoth]) nearBoth None)))"
  by (simp add: snapToCenter_oleft snapToCenter_otop snapToCenter_guides studio_size
      tenAway_fields nearBoth_fields)

section \<open>Properties of the history manager\<close>

subsection \<open>What saveHistory computes\<close>

lemma saveHistory_canvas: "canvas (saveHistory toJSON d) = canvas d"
  by (simp add: saveHistory_def Let_def)

lemma saveHistory_redo: "redoHistory (saveHistory toJSON d) = []"
  by (simp add: saveHistory_def Let_def)

lemma saveHistory_history:
  "history (saveHistory toJSON d) =
     (if 50 \<le> length (history d) then tl (history d) @ [toJSON (canvas d)]
      else history d @ [toJSON (canvas d)])"
  by (cases "history d") (auto simp: saveHistory_def Let_def)

lemma saveHistory_length:
  "length (history d) \<le> 50 \<Longrightarrow> length (history (saveHistory toJSON d)) \<le> 50"
  by (simp add: saveHistory_history)

text \<open>A stack that is already at or over the cap keeps its length: one in, one out.\<close>

lemma saveHistory_keeps_length:
  "50 \<le> length (history d) \<Longrightarrow> length (history (saveHistory toJSON d)) = length (history d)"
  by (simp add: saveHistory_history)

lemma saveHistory_top:
  "history (saveHistory toJSON d) \<noteq> [] \<and>
   last (history (saveHistory toJSON d)) = toJSON (canvas d)"
  by (simp add: saveHistory_history)

lemma snapshots_history:
  "length (history d) \<le> 50 \<Longrightarrow>
     history (snapshots toJSON scenes d) =
       drop (length (history d) + length scenes - 50) (history d @ map toJSON scenes)"
proof (induction scenes arbitrary: d)
  case Nil
  then show ?case by simp
next
  case (Cons s scenes)
  let ?d' = "saveHistory toJSON (d\<lparr>canvas := s\<rparr>)"
  have len: "length (history ?d') \<le> 50"
    using Cons.prems by (intro saveHistory_length) simp
  show ?case
  proof (cases "50 \<le> length (history d)")
    case True
    with Cons.prems have l50: "length (history d) = 50" by simp
    then obtain x xs where h: "history d = x # xs" by (cases "history d") auto
    have h': "history ?d' = xs @ [toJSON s]"
      using l50 h by (simp add: saveHistory_history)
    from h l50 have lx: "length xs = 49" by simp
    show ?thesis
      using Cons.IH[OF len] by (simp add: h' h lx)
  next
    case False
    then have h': "history ?d' = history d @ [toJSON s]"
      by (simp add: saveHistory_history)
    show ?thesis
      using Cons.IH[OF len] False by (simp add: h')
  qed
qed

lemma snapshots_redo:
  "redoHistory (snapshots toJSON scenes d) = (if scenes = [] then redoHistory d else [])"
  by (induction scenes arbitrary: d) (auto simp: saveHistory_redo)

lemma snapshots_canvas:
  "canvas (snapshots toJSON scenes d) = (if scenes = [] then canvas d else last scenes)"
  by (induction scenes arbitrary: d) (auto simp: saveHistory_canvas)

subsection \<open>What a load does\<close>

text \<open>
  Whatever a snapshot taken after a change of the canvas preserves, the removals and
  insertions of a load preserve too.
\<close>

lemma removeObject_preserves:
  assumes "\<And>d c. P d \<Longrightarrow> P (saveHistory toJSON (d\<lparr>canvas := c\<rparr>))" and "P d"
  shows "P (removeObject toJSON x d)"
  using assms by (simp add: removeObject_def on_object_removed_def)

lemma insertObjectAt_preserves:
  assumes "\<And>d c. P d \<Longrightarrow> P (saveHistory toJSON (d\<lparr>canvas := c\<rparr>))" and "P d"
  shows "P (insertObjectAt toJSON x k d)"
  using assms by (simp add: insertObjectAt_def on_object_added_def)

lemma removeEach_preserves:
  assumes step: "\<And>d c. P d \<Longrightarrow> P (saveHistory toJSON (d\<lparr>canvas := c\<rparr>))"
  shows "P d \<Longrightarrow> P (removeEach toJSON xs d)"
proof (induction xs arbitrary: d)
  case Nil
  then show ?case by simp
next
  case (Cons x xs)
  from removeObject_preserves[of P toJSON d x, OF step Cons.prems]
  have "P (removeObject toJSON x d)" .
  from Cons.IH[OF this] show ?case by simp
qed

lemma insertEach_preserves:
  assumes step: "\<And>d c. P d \<Longrightarrow> P (saveHistory toJSON (d\<lparr>canvas := c\<rparr>))"
  shows "P d \<Longrightarrow> P (insertEach toJSON k xs d)"
proof (induction xs arbitrary: d k)
  case Nil
  then show ?case by simp
next
  case (Cons x xs)
  from insertObjectAt_preserves[of P toJSON d x k, OF step Cons.prems]
  have "P (insertObjectAt toJSON x k d)" .
  from Cons.IH[OF this] show ?case by simp
qed

lemma loadFromJSON_preserves:
  assumes step: "\<And>d c. P d \<Longrightarrow> P (saveHistory toJSON (d\<lparr>canvas := c\<rparr>))" and "P d"
  shows "P (loadFromJSON toJSON enliven state d)"
proof -
  from removeEach_preserves[where P = P, OF step assms(2)]
  have "P (removeEach toJSON (canvas d) d)" .
  from insertEach_preserves[where P = P, OF step this]
  show ?thesis by (simp add: loadFromJSON_def)
qed

text \<open>The load leaves exactly the loaded objects on the canvas, in their order.\<close>

lemma removeEach_canvas:
  "canvas d = xs \<Longrightarrow> canvas (removeEach toJSON xs d) = []"
proof (induction xs arbitrary: d)
  case Nil
  then show ?case by simp
next
  case (Cons x xs)
  then have "canvas (removeObject toJSON x d) = xs"
    by (simp add: removeObject_def indexOf_def on_object_removed_def saveHistory_canvas)
  from Cons.IH[OF this] show ?case by simp
qed

lemma insertAt_end: "insertAt x (int (length ys)) ys = ys @ [x]"
  by (simp add: insertAt_def)

lemma insertEach_canvas:
  "canvas d = ys \<Longrightarrow> canvas (insertEach toJSON (int (length ys)) xs d) = ys @ xs"
proof (induction xs arbitrary: d ys)
  case Nil
  then show ?case by simp
next
  case (Cons x xs)
  have c: "canvas (insertObjectAt toJSON x (int (length ys)) d) = ys @ [x]"
    using Cons.prems
    by (simp add: insertObjectAt_def on_object_added_def saveHistory_canvas insertAt_end)
  from Cons.IH[OF c] show ?case by (simp add: add.commute)
qed

lemma loadFromJSON_canvas: "canvas (loadFromJSON toJSON enliven state d) = enliven state"
proof -
  have "canvas (removeEach toJSON (canvas d) d) = []"
    by (rule removeEach_canvas) simp
  from insertEach_canvas[OF this, of toJSON "enliven state"] show ?thesis
    by (simp add: loadFromJSON_def)
qed

text \<open>
  A load on a canvas that is not empty removes an object, so a snapshot is taken and the
  redo stack is emptied; later snapshots leave it empty.
\<close>

lemma loadFromJSON_empties_redo:
  assumes "canvas d \<noteq> []"
  shows "redoHistory (loadFromJSON toJSON enliven state d) = []"
proof -
  let ?P = "\<lambda>d. redoHistory d = []"
  have step: "\<And>d c. ?P d \<Longrightarrow> ?P (saveHistory toJSON (d\<lparr>canvas := c\<rparr>))"
    by (simp add: saveHistory_redo)
  from assms obtain x xs where c: "canvas d = x # xs" by (cases "canvas d") auto
  have "?P (removeObject toJSON x d)"
    by (simp add: c removeObject_def indexOf_def on_object_removed_def saveHistory_redo)
  from removeEach_preserves[where P = ?P, OF step this]
  have "?P (removeEach toJSON (canvas d) d)" by (simp add: c)
  from insertEach_preserves[where P = ?P, OF step this]
  show ?thesis by (simp add: loadFromJSON_def)
qed

text \<open>A load of no objects on an empty canvas fires nothing.\<close>

lemma loadFromJSON_quiet:
  "canvas d = [] \<Longrightarrow> enliven state = [] \<Longrightarrow> loadFromJSON toJSON enliven state d = d"
  by (simp add: loadFromJSON_def)

lemma loadFromJSON_stacks:
  assumes "length (history d) + length (redoHistory d) \<le> 50"
  shows "length (history (loadFromJSON toJSON enliven state d))
           + length (redoHistory (loadFromJSON toJSON enliven state d)) \<le> 50"
proof (rule loadFromJSON_preserves[of "\<lambda>d. length (history d) + length (redoHistory d) \<le> 50"])
  fix d :: designer and c
  assume "length (history d) + length (redoHistory d) \<le> 50"
  then have "length (history (d\<lparr>canvas := c\<rparr>)) \<le> 50" by simp
  from saveHistory_length[OF this, of toJSON]
  show "length (history (saveHistory toJSON (d\<lparr>canvas := c\<rparr>)))
          + length (redoHistory (saveHistory toJSON (d\<lparr>canvas := c\<rparr>))) \<le> 50"
    by (simp add: saveHistory_redo)
qed (rule assms)

lemma loadFromJSON_keeps_length:
  assumes "50 \<le> length (history d)"
  shows "length (history (loadFromJSON toJSON enliven state d)) = length (history d)"
proof -
  let ?P = "\<lambda>d'. length (history d') = length (history d)"
  have "?P (loadFromJSON toJSON enliven state d)"
  proof (rule loadFromJSON_preserves[of ?P])
    fix d' :: designer and c
    assume a: "length (history d') = length (history d)"
    with assms have "50 \<le> length (history (d'\<lparr>canvas := c\<rparr>))" by simp
    from saveHistory_keeps_length[OF this, of toJSON] a
    show "length (history (saveHistory toJSON (d'\<lparr>canvas := c\<rparr>))) = length (history d)"
      by simp
  qed simp
  then show ?thesis .
qed

subsection \<open>What undo and redo compute\<close>

lemma undo_step:
  assumes "butlast (history d) \<noteq> []" and "last (butlast (history d)) \<noteq> []"
  shows "undo toJSON enliven d =
           loadFromJSON toJSON enliven (last (butlast (history d)))
             (d\<lparr>redoHistory := redoHistory d @ [last (history d)],
                history := butlast (history d)\<rparr>)"
proof -
  from assms(1) have "length (history d) > 1"
    by (cases "history d") auto
  with assms(2) show ?thesis by (simp add: undo_def Let_def)
qed

lemma redo_step:
  assumes "redoHistory d \<noteq> []"
  shows "redo toJSON enliven d =
           loadFromJSON toJSON enliven (last (redoHistory d))
             (d\<lparr>redoHistory := butlast (redoHistory d),
                history := history d @ [toJSON (canvas d)]\<rparr>)"
  using assms by (simp add: redo_def Let_def)

lemma redo_nothing: "redoHistory d = [] \<Longrightarrow> redo toJSON enliven d = d"
  by (simp add: redo_def)

lemma undo_stacks:
  assumes "length (history d) + length (redoHistory d) \<le> 50"
  shows "length (history (undo toJSON enliven d)) + length (redoHistory (undo toJSON enliven d))
           \<le> 50"
proof (cases "length (history d) > 1")
  case True
  let ?d1 = "d\<lparr>redoHistory := redoHistory d @ [last (history d)],
               history := butlast (history d)\<rparr>"
  from True assms have s: "length (history ?d1) + length (redoHistory ?d1) \<le> 50" by simp
  show ?thesis
  proof (cases "last (butlast (history d)) = []")
    case True
    with \<open>length (history d) > 1\<close> s show ?thesis by (simp add: undo_def Let_def)
  next
    case False
    with \<open>length (history d) > 1\<close> loadFromJSON_stacks[OF s, of toJSON enliven]
    show ?thesis by (simp add: undo_def Let_def)
  qed
next
  case False
  with assms show ?thesis by (simp add: undo_def)
qed

lemma redo_stacks:
  assumes "length (history d) + length (redoHistory d) \<le> 50"
  shows "length (history (redo toJSON enliven d)) + length (redoHistory (redo toJSON enliven d))
           \<le> 50"
proof (cases "redoHistory d = []")
  case True
  with assms show ?thesis by (simp add: redo_nothing)
next
  case False
  let ?d2 = "d\<lparr>redoHistory := butlast (redoHistory d),
               history := history d @ [toJSON (canvas d)]\<rparr>"
  from False assms have "length (history ?d2) + length (redoHistory ?d2) \<le> 50"
    by (cases "redoHistory d" rule: rev_cases) simp_all
  from loadFromJSON_stacks[OF this, of toJSON enliven] False show ?thesis
    by (simp add: redo_step)
qed

subsection \<open>The two stacks together\<close>

text \<open>
  \<open>undo\<close> and \<open>redo\<close> move entries between the two stacks, and \<open>saveHistory\<close>, also when
  a load runs it, empties one and caps the other, so the two stacks never hold more than
  50 entries together.
\<close>

lemma reachable_stacks:
  "reachable toJSON enliven d \<Longrightarrow> length (history d) + length (redoHistory d) \<le> 50"
proof (induction rule: reachable.induct)
  case (start d)
  then show ?case by (simp add: freshStacks_def)
next
  case (other d d')
  then show ?case by simp
next
  case (save d)
  then have "length (history d) \<le> 50" by simp
  from saveHistory_length[OF this, of toJSON] show ?case by (simp add: saveHistory_redo)
next
  case (undone d)
  from undone.IH show ?case by (rule undo_stacks)
next
  case (redone d)
  from redone.IH show ?case by (rule redo_stacks)
qed

lemma reachable_snapshots:
  "reachable toJSON enliven d \<Longrightarrow> reachable toJSON enliven (snapshots toJSON scenes d)"
proof (induction scenes arbitrary: d)
  case Nil
  then show ?case by simp
next
  case (Cons s scenes)
  have "reachable toJSON enliven (d\<lparr>canvas := s\<rparr>)"
    by (rule reachable.other[OF Cons.prems]) simp_all
  then have "reachable toJSON enliven (saveHistory toJSON (d\<lparr>canvas := s\<rparr>))"
    by (rule reachable.save)
  from Cons.IH[OF this] show ?case by simp
qed

subsection \<open>The worked runs\<close>

lemma studio_stacks: "history (studio design) = []" "redoHistory (studio design) = []"
  by (simp_all add: studio_def)

lemma studio_fresh: "freshStacks (studio design)"
  by (simp add: freshStacks_def studio_stacks)

lemma tagJSON_studio:
  "tagJSON (canvas (studio [])) = ''[IIII]''"
  "tagJSON (canvas (studio [wideText])) = ''[IIIIT]''"
  by (simp_all add: tagJSON_def studio_def bleedBox_def safeBox_def vLine_def hLine_def
      helperObject_def blankObject_def wideText_fields)

lemma length_tagLoad: "length (tagLoad s) = length s - 2"
  by (simp add: tagLoad_def)

lemma tagLoad_nothing: "tagLoad ''[]'' = []"
  by (simp add: tagLoad_def)

lemma twoSnapshots:
  "history (saveHistory tagJSON
     ((saveHistory tagJSON (studio []))\<lparr>canvas := canvas (studio [wideText])\<rparr>))
     = [''[IIII]'', ''[IIIIT]'']"
  by (simp add: saveHistory_history saveHistory_canvas studio_stacks tagJSON_studio)

lemma undoneOnce_eq:
  "undoneOnce =
     loadFromJSON tagJSON tagLoad ''[IIII]''
       ((saveHistory tagJSON
           ((saveHistory tagJSON (studio []))\<lparr>canvas := canvas (studio [wideText])\<rparr>))
        \<lparr>redoHistory := [''[IIIIT]''], history := [''[IIII]'']\<rparr>)"
  unfolding undoneOnce_def
  by (subst undo_step) (simp_all add: twoSnapshots saveHistory_redo)

lemma undoneOnce_facts:
  "canvas undoneOnce = tagLoad ''[IIII]''" "redoHistory undoneOnce = []"
proof -
  show "canvas undoneOnce = tagLoad ''[IIII]''"
    by (simp add: undoneOnce_eq loadFromJSON_canvas)
  show "redoHistory undoneOnce = []"
    unfolding undoneOnce_eq
    by (rule loadFromJSON_empties_redo) (simp add: saveHistory_canvas studio_def)
qed

lemma replicate_snoc: "replicate (Suc n) x = replicate n x @ [x]"
  by (simp add: replicate_append_same)

lemma fifty_entries:
  "butlast (replicate 50 x) = replicate 49 x" "last (replicate 50 x) = x"
  "replicate 49 x \<noteq> []" "last (replicate 49 x) = x"
proof -
  have "replicate 50 x = replicate 49 x @ [x]"
    using replicate_snoc[of 49 x] by simp
  then show "butlast (replicate 50 x) = replicate 49 x" by simp
  show "last (replicate 50 x) = x" "replicate 49 x \<noteq> []" "last (replicate 49 x) = x"
    by simp_all
qed

lemma overfull_stacks: "history overfull = replicate 50 ''[]''" "redoHistory overfull = [''[T]'']"
  by (simp_all add: overfull_def)

lemma fifty_snapshots:
  "reachable tagJSON tagLoad (snapshots tagJSON (replicate 50 []) (studio []))"
  "length (history (snapshots tagJSON (replicate 50 []) (studio []))) = 50"
  "redoHistory (snapshots tagJSON (replicate 50 []) (studio [])) = []"
proof -
  show "reachable tagJSON tagLoad (snapshots tagJSON (replicate 50 []) (studio []))"
    by (intro reachable_snapshots reachable.start studio_fresh)
  show "length (history (snapshots tagJSON (replicate 50 []) (studio []))) = 50"
    by (simp add: snapshots_history studio_stacks)
  show "redoHistory (snapshots tagJSON (replicate 50 []) (studio [])) = []"
    by (simp add: snapshots_redo)
qed

lemma bare_snapshots:
  "history (snapshots tagJSON (replicate 50 []) bareStudio) = replicate 50 ''[]''"
  "redoHistory (snapshots tagJSON (replicate 50 []) bareStudio) = []"
  "canvas (snapshots tagJSON (replicate 50 []) bareStudio) = []"
  "reachable tagJSON tagLoad (snapshots tagJSON (replicate 50 []) bareStudio)"
proof -
  have h: "history bareStudio = []" "redoHistory bareStudio = []"
    by (simp_all add: bareStudio_def studio_stacks)
  show "history (snapshots tagJSON (replicate 50 []) bareStudio) = replicate 50 ''[]''"
    by (simp add: snapshots_history h tagJSON_def)
  show "redoHistory (snapshots tagJSON (replicate 50 []) bareStudio) = []"
    by (simp add: snapshots_redo)
  show "canvas (snapshots tagJSON (replicate 50 []) bareStudio) = []"
    by (simp add: snapshots_canvas)
  show "reachable tagJSON tagLoad (snapshots tagJSON (replicate 50 []) bareStudio)"
    by (intro reachable_snapshots reachable.start) (simp add: freshStacks_def h)
qed

text \<open>With nothing on the canvas and nothing to load, no event fires in \<open>undo\<close>.\<close>

lemma bare_undone:
  "undo tagJSON tagLoad (snapshots tagJSON (replicate 50 []) bareStudio) =
     (snapshots tagJSON (replicate 50 []) bareStudio)
       \<lparr>redoHistory := [''[]''], history := replicate 49 ''[]''\<rparr>"
  by (subst undo_step)
     (simp_all add: bare_snapshots fifty_entries loadFromJSON_quiet tagLoad_nothing)

lemma bare_redone:
  "redo tagJSON tagLoad (undo tagJSON tagLoad (snapshots tagJSON (replicate 50 []) bareStudio)) =
     (snapshots tagJSON (replicate 50 []) bareStudio)
       \<lparr>redoHistory := [], history := replicate 49 ''[]'' @ [''[]'']\<rparr>"
  unfolding bare_undone
  by (subst redo_step)
     (simp_all add: bare_snapshots loadFromJSON_quiet tagLoad_nothing tagJSON_def)

subsection \<open>Undo and redo\<close>

text \<open>
  Claim C4 at a concrete run: from the start, a snapshot, a text added to the design, a
  snapshot, then \<open>undo\<close> (the state \<open>undoneOnce\<close>) and \<open>redo\<close>. The \<open>undo\<close> leaves on the
  canvas the scene loaded from the first snapshot, as the claim says. But its load has
  removed and inserted objects, the handlers of these events have taken snapshots, and
  the redo stack is empty: \<open>redo\<close> changes nothing, and the canvas is not the scene
  loaded from the snapshot taken after the text was added.
\<close>

theorem undo_then_redo_does_not_restore:
  "canvas undoneOnce = tagLoad (tagJSON (canvas (studio []))) \<and>
   redoHistory undoneOnce = [] \<and>
   redo tagJSON tagLoad undoneOnce = undoneOnce \<and>
   canvas (redo tagJSON tagLoad undoneOnce) \<noteq> tagLoad (tagJSON (canvas (studio [wideText])))"
proof -
  have "length (canvas undoneOnce) \<noteq> length (tagLoad ''[IIIIT]'')"
    by (simp add: undoneOnce_facts length_tagLoad)
  then have "canvas undoneOnce \<noteq> tagLoad ''[IIIIT]''" by auto
  then show ?thesis
    by (simp add: undoneOnce_facts redo_nothing tagJSON_studio)
qed

subsection \<open>The cap\<close>

text \<open>
  Claim C5. \<open>saveHistory\<close> pushes the serialised scene on the undo stack and empties the
  redo stack. Below 50 entries nothing is dropped; at 50 entries the oldest one leaves,
  so the stack stays at 50. From empty stacks, a run of snapshots leaves the last 50 of
  them in order: 51 snapshots leave exactly 50, all but the first. In every state the
  designer can reach, the undo stack holds at most 50 entries after \<open>saveHistory\<close>.
\<close>

theorem saveHistory_caps_at_50:
  "redoHistory (saveHistory toJSON d) = [] \<and>
   last (history (saveHistory toJSON d)) = toJSON (canvas d) \<and>
   (length (history d) < 50 \<longrightarrow>
      history (saveHistory toJSON d) = history d @ [toJSON (canvas d)]) \<and>
   (length (history d) = 50 \<longrightarrow>
      history (saveHistory toJSON d) = tl (history d) @ [toJSON (canvas d)] \<and>
      length (history (saveHistory toJSON d)) = 50) \<and>
   (freshStacks d \<longrightarrow>
      history (snapshots toJSON scenes d) = drop (length scenes - 50) (map toJSON scenes)) \<and>
   (freshStacks d \<and> length scenes = 51 \<longrightarrow>
      length (history (snapshots toJSON scenes d)) = 50 \<and>
      history (snapshots toJSON scenes d) = tl (map toJSON scenes)) \<and>
   (reachable toJSON enliven d \<longrightarrow> length (history (saveHistory toJSON d)) \<le> 50)"
proof -
  have r: "reachable toJSON enliven d \<longrightarrow> length (history (saveHistory toJSON d)) \<le> 50"
  proof
    assume "reachable toJSON enliven d"
    from reachable_stacks[OF reachable.save[OF this]]
    show "length (history (saveHistory toJSON d)) \<le> 50" by simp
  qed
  have a: "freshStacks d \<longrightarrow>
      history (snapshots toJSON scenes d) = drop (length scenes - 50) (map toJSON scenes)"
    using snapshots_history[of d toJSON scenes] by (simp add: freshStacks_def)
  have b: "freshStacks d \<and> length scenes = 51 \<longrightarrow>
      length (history (snapshots toJSON scenes d)) = 50 \<and>
      history (snapshots toJSON scenes d) = tl (map toJSON scenes)"
    using a by (simp add: drop_Suc)
  have c: "length (history d) = 50 \<longrightarrow>
      history (saveHistory toJSON d) = tl (history d) @ [toJSON (canvas d)] \<and>
      length (history (saveHistory toJSON d)) = 50"
    by (simp add: saveHistory_history)
  from a b c r show ?thesis
    by (simp add: saveHistory_redo saveHistory_top saveHistory_history)
qed

theorem saveHistory_caps_at_50_witness:
  "length (history fullHistory) = 50 \<and>
   history (saveHistory tagJSON fullHistory)
     = tl (history fullHistory) @ [tagJSON (canvas fullHistory)] \<and>
   length (history (saveHistory tagJSON fullHistory)) = 50 \<and>
   freshStacks (studio []) \<and> length (replicate 51 ([]::fobj list)) = 51 \<and>
   length (history (snapshots tagJSON (replicate 51 []) (studio []))) = 50 \<and>
   history (snapshots tagJSON (replicate 51 []) (studio [])) = tl (map tagJSON (replicate 51 [])) \<and>
   reachable tagJSON tagLoad (snapshots tagJSON (replicate 50 []) (studio [])) \<and>
   length (history (saveHistory tagJSON (snapshots tagJSON (replicate 50 []) (studio [])))) \<le> 50"
  using saveHistory_caps_at_50 [of tagJSON fullHistory "[]"]
    saveHistory_caps_at_50 [of tagJSON "studio []" "replicate 51 []"]
    saveHistory_caps_at_50 [of tagJSON "snapshots tagJSON (replicate 50 []) (studio [])" "[]" tagLoad]
    fifty_snapshots(1)
  by (simp add: studio_fresh fullHistory_def)

subsection \<open>What is on top of the undo stack\<close>







subsection \<open>redo and the cap\<close>

text \<open>
  Claim C10, as amended. \<open>redo\<close> applies no cap of its own: on a state with 50 or more
  entries on the undo stack and something to redo it leaves the undo stack one entry
  longer (51 from 50), and with an empty redo stack it does nothing. But such a state is
  never reached: in every state the designer can reach the two stacks hold at most 50
  entries together, so with 50 entries on the undo stack the redo stack is empty and
  \<open>redo\<close> changes nothing, and after any \<open>redo\<close> the undo stack holds at most 50 entries.
\<close>

theorem redo_uncapped_but_bounded:
  "(redoHistory d \<noteq> [] \<and> 50 \<le> length (history d) \<longrightarrow>
      length (history (redo toJSON enliven d)) = length (history d) + 1) \<and>
   (redoHistory d = [] \<longrightarrow> redo toJSON enliven d = d) \<and>
   (reachable toJSON enliven d \<longrightarrow>
      length (history d) + length (redoHistory d) \<le> 50 \<and>
      length (history (redo toJSON enliven d)) \<le> 50 \<and>
      (length (history d) = 50 \<longrightarrow> redoHistory d = [] \<and> redo toJSON enliven d = d))"
proof -
  have over: "length (history (redo toJSON enliven d)) = length (history d) + 1"
    if "redoHistory d \<noteq> []" and "50 \<le> length (history d)"
  proof -
    let ?d2 = "d\<lparr>redoHistory := butlast (redoHistory d),
                 history := history d @ [toJSON (canvas d)]\<rparr>"
    from that(2) have "50 \<le> length (history ?d2)" by simp
    from loadFromJSON_keeps_length[OF this, of toJSON enliven "last (redoHistory d)"]
    show ?thesis by (simp add: redo_step[OF that(1)])
  qed
  have r: "length (history d) + length (redoHistory d) \<le> 50 \<and>
           length (history (redo toJSON enliven d)) \<le> 50 \<and>
           (length (history d) = 50 \<longrightarrow> redoHistory d = [] \<and> redo toJSON enliven d = d)"
    if "reachable toJSON enliven d"
  proof -
    from reachable_stacks[OF that]
    have s: "length (history d) + length (redoHistory d) \<le> 50" .
    from reachable_stacks[OF reachable.redone[OF that]]
    have a: "length (history (redo toJSON enliven d)) \<le> 50" by simp
    from s have "length (history d) = 50 \<longrightarrow> redoHistory d = []" by auto
    with s a show ?thesis by (auto simp: redo_nothing)
  qed
  from over r show ?thesis by (auto simp: redo_nothing)
qed

theorem redo_uncapped_but_bounded_witness:
  "redoHistory overfull \<noteq> [] \<and> length (history overfull) = 50 \<and>
   length (history (redo tagJSON tagLoad overfull)) = 51 \<and>
   reachable tagJSON tagLoad (snapshots tagJSON (replicate 50 []) (studio [])) \<and>
   length (history (snapshots tagJSON (replicate 50 []) (studio []))) = 50 \<and>
   redo tagJSON tagLoad (snapshots tagJSON (replicate 50 []) (studio []))
     = snapshots tagJSON (replicate 50 []) (studio [])"
  using redo_uncapped_but_bounded [of overfull tagJSON tagLoad]
    redo_uncapped_but_bounded [of "snapshots tagJSON (replicate 50 []) (studio [])" tagJSON tagLoad]
    fifty_snapshots
  by (simp add: overfull_stacks)

text \<open>
  The claim as written has \<open>redo\<close> leave 51 entries when the undo stack holds 50, and so
  break the bound of 50. Two runs from the start. After 50 snapshots the undo stack
  holds 50 entries, and \<open>redo\<close> leaves it at 50. And on a canvas with nothing on it, 50
  snapshots and an \<open>undo\<close> give the fullest stacks with something to redo, 49 entries and
  one; there \<open>redo\<close> does push, and the undo stack ends with 50 entries.
\<close>

theorem redo_at_50_entries_leaves_50:
  "reachable tagJSON tagLoad (snapshots tagJSON (replicate 50 []) (studio [])) \<and>
   length (history (snapshots tagJSON (replicate 50 []) (studio []))) = 50 \<and>
   length (history (redo tagJSON tagLoad (snapshots tagJSON (replicate 50 []) (studio []))))
     = 50 \<and>
   reachable tagJSON tagLoad
     (undo tagJSON tagLoad (snapshots tagJSON (replicate 50 []) bareStudio)) \<and>
   redoHistory (undo tagJSON tagLoad (snapshots tagJSON (replicate 50 []) bareStudio))
     = [''[]''] \<and>
   length (history (undo tagJSON tagLoad (snapshots tagJSON (replicate 50 []) bareStudio)))
     = 49 \<and>
   length (history (redo tagJSON tagLoad
     (undo tagJSON tagLoad (snapshots tagJSON (replicate 50 []) bareStudio)))) = 50"
proof -
  have a: "reachable tagJSON tagLoad
     (undo tagJSON tagLoad (snapshots tagJSON (replicate 50 []) bareStudio))"
    by (intro reachable.undone bare_snapshots)
  have b: "length (history (redo tagJSON tagLoad
     (undo tagJSON tagLoad (snapshots tagJSON (replicate 50 []) bareStudio)))) = 50"
    by (simp add: bare_redone)
  have c: "redoHistory (undo tagJSON tagLoad (snapshots tagJSON (replicate 50 []) bareStudio))
     = [''[]'']"
    "length (history (undo tagJSON tagLoad (snapshots tagJSON (replicate 50 []) bareStudio)))
     = 49"
    by (simp_all add: bare_undone)
  from a b c fifty_snapshots show ?thesis by (simp add: redo_nothing)
qed

section \<open>Properties of the layer model\<close>

lemma removeObject_canvas:
  "canvas (removeObject toJSON x d) =
     (if indexOf (canvas d) (Some x) = -1 then canvas d else canvas_remove x (canvas d))"
  by (simp add: removeObject_def on_object_removed_def saveHistory_canvas)

lemma insertObjectAt_canvas:
  "canvas (insertObjectAt toJSON x k d) = insertAt x k (canvas d)"
  by (simp add: insertObjectAt_def on_object_added_def saveHistory_canvas)

lemma oid_fixtures:
  "oid (imageObject i) = i" "oid bleedBox = 1" "oid safeBox = 2" "oid vLine = 3" "oid hLine = 4"
  "excludeFromLayers (imageObject i) = False"
  by (simp_all add: imageObject_def bleedBox_def safeBox_def vLine_def hLine_def
      helperObject_def blankObject_def)

lemma threeLayers_canvas:
  "canvas threeLayers =
     [bleedBox, safeBox, vLine, hLine, imageObject 5, imageObject 6, imageObject 7]"
  by (simp add: threeLayers_def studio_def)

lemma threeLayers_helpers:
  "safeRect threeLayers = safeBox" "bleedRect threeLayers = bleedBox"
  "vGuide threeLayers = vLine" "hGuide threeLayers = hLine"
  by (simp_all add: threeLayers_def studio_def)

lemma threeLayers_design:
  "designObjects threeLayers = [imageObject 5, imageObject 6, imageObject 7]"
  by (simp add: designObjects_def threeLayers_canvas threeLayers_helpers oid_fixtures)

lemma threeLayers_found:
  "indexOf (canvas threeLayers) (Some (imageObject 7)) = 6"
  by (simp add: indexOf_def threeLayers_canvas oid_fixtures)

lemma threeLayers_removed:
  "canvas (removeObject toJSON (imageObject 7) threeLayers) =
     [bleedBox, safeBox, vLine, hLine, imageObject 5, imageObject 6]"
  by (simp add: removeObject_canvas threeLayers_found)
     (simp add: threeLayers_canvas oid_fixtures)

lemma insert_seven:
  "insertAt (imageObject 7) 5 [bleedBox, safeBox, vLine, hLine, imageObject 5, imageObject 6]
     = [bleedBox, safeBox, vLine, hLine, imageObject 5, imageObject 7, imageObject 6]"
  by (simp add: insertAt_def)

lemma threeLayers_reorder:
  "map_sum id canvas (reorderLayers toJSON 2 0 threeLayers) =
     Inr [bleedBox, safeBox, vLine, hLine, imageObject 5, imageObject 7, imageObject 6]"
  by (simp add: reorderLayers_def threeLayers_design nth_opt_def saveHistory_canvas
      insertObjectAt_canvas threeLayers_removed insert_seven)

text \<open>
  Claim C7 at a concrete scene: the four helper objects and three images 5, 6, 7 painted
  in that order. The panel lists 7, 6, 5, so the bottom layer (image 5) has index 2 and
  the top position has index 0. Dropping entry 2 on entry 0 leaves image 5 painted first
  of the three and takes image 7, the former top, beneath image 6; the claim has image 5
  painted last and 6, 7 in their old order.
\<close>

theorem reorderLayers_bottom_to_top_diverges:
  "map oid (layerEntries threeLayers) = [7, 6, 5] \<and>
   map_sum id (map oid \<circ> canvas) (layer_drop tagJSON 2 0 threeLayers)
     = Inr [1, 2, 3, 4, 5, 7, 6]"
proof -
  have "map_sum id (map oid \<circ> canvas) (reorderLayers tagJSON 2 0 threeLayers)
          = map_sum id (map oid) (map_sum id canvas (reorderLayers tagJSON 2 0 threeLayers))"
    by (cases "reorderLayers tagJSON 2 0 threeLayers") simp_all
  then show ?thesis
    by (simp add: layerEntries_def threeLayers_design layer_drop_def threeLayers_reorder
        oid_fixtures)
qed

section \<open>Properties of the debounced update\<close>

lemma first_call: "armed t (debouncedUpdate (elapse t idle))"
  by (simp add: armed_def debouncedUpdate_def debounced_def clearTimeout_def setTimeout_def
      elapse_def idle_def Let_def)

lemma next_call:
  assumes "armed c s" and "c \<le> t" and "t < c + DEBOUNCE_TIME"
  shows "armed t (debouncedUpdate (elapse t s))"
proof -
  from assms(1) obtain i where s: "clock s = c" "syncRuns s = []"
    "timers s = [(i, c + DEBOUNCE_TIME)]" "timeout s = Some i"
    by (auto simp: armed_def split: option.splits)
  from assms(2,3) s show ?thesis
    by (simp add: armed_def debouncedUpdate_def debounced_def clearTimeout_def setTimeout_def
        elapse_def Let_def)
qed

lemma burst_calls:
  "armed t s \<Longrightarrow> burst DEBOUNCE_TIME (t # ts) \<Longrightarrow> armed (last (t # ts)) (callsAt ts s)"
proof (induction ts arbitrary: t s)
  case Nil
  then show ?case by simp
next
  case (Cons u ts)
  from Cons.prems(2) have tu: "t \<le> u" "u < t + DEBOUNCE_TIME"
    and b: "burst DEBOUNCE_TIME (u # ts)"
    by simp_all
  from next_call[OF Cons.prems(1) tu] have "armed u (debouncedUpdate (elapse u s))" .
  from Cons.IH[OF this b] show ?case by simp
qed

lemma armed_elapse:
  assumes "armed t s"
  shows "syncRuns (elapse T s) = (if t + DEBOUNCE_TIME \<le> T then [t + DEBOUNCE_TIME] else [])"
  using assms by (auto simp: armed_def elapse_def split: option.splits)

text \<open>
  Claim C9. The wait is 300 ms. After one or more calls of the debounced update, each
  less than 300 ms after the one before, nothing has run at any time before 300 ms after
  the last call, and from that time on exactly one run has taken place, 300 ms after the
  last call. (With a call exactly 300 ms after the one before, the order of the timer
  and the call is the host's.)
\<close>

theorem debounce_collapses_burst:
  assumes "ts \<noteq> []" and "burst DEBOUNCE_TIME ts"
  shows "DEBOUNCE_TIME = 300 \<and>
         (\<forall>T. T < last ts + 300 \<longrightarrow> syncRuns (elapse T (callsAt ts idle)) = []) \<and>
         (\<forall>T. last ts + 300 \<le> T \<longrightarrow> syncRuns (elapse T (callsAt ts idle)) = [last ts + 300])"
proof -
  from assms(1) obtain t rest where ts: "ts = t # rest" by (cases ts) auto
  have "armed (last ts) (callsAt ts idle)"
    using burst_calls[OF first_call[of t], of rest] assms(2) by (simp add: ts)
  from armed_elapse[OF this] show ?thesis by (simp add: DEBOUNCE_TIME_def)
qed

theorem debounce_collapses_burst_witness:
  "burst DEBOUNCE_TIME [0, 100, 350] \<and>
   syncRuns (elapse 649 (callsAt [0, 100, 350] idle)) = [] \<and>
   syncRuns (elapse 650 (callsAt [0, 100, 350] idle)) = [650] \<and>
   syncRuns (elapse 5000 (callsAt [0, 100, 350] idle)) = [650]"
proof -
  have b: "burst DEBOUNCE_TIME [0, 100, 350]" by (simp add: DEBOUNCE_TIME_def)
  from debounce_collapses_burst [OF _ b] b show ?thesis by simp
qed

end
